theory Spec2Isabelle
  imports Main
begin


section \<open>The two servers\<close>

text \<open>
  The repository holds two versions of one Express server that proxies requests to
  allowlisted hosts: \<^verbatim>\<open>server.js\<close>, and a second server file, \<^verbatim>\<open>unnamed/part_000\<close>. They
  differ in the validator (\<^verbatim>\<open>allowedTarget\<close> in the first, \<^verbatim>\<open>parseAndValidateTarget\<close> in the
  second), in what the route does before it hands a request to the proxy middleware, and
  in the hooks they give the middleware. Both are modelled. A definition keeps the name
  it has in its source; where the two sources use one name for different code (\<^verbatim>\<open>router\<close>,
  \<^verbatim>\<open>pathRewrite\<close>, \<^verbatim>\<open>onProxyReq\<close>, \<^verbatim>\<open>onError\<close>, the route itself), the name carries the suffix
  \<open>_server_js\<close> or \<open>_part_000\<close>.
\<close>

section \<open>JavaScript strings\<close>

text \<open>
  The servers work on strings with a handful of built-in methods. Each is modelled on
  \<open>string\<close> as the source uses it. The model reads a string as ASCII text.

  \<^verbatim>\<open>toLowerCase\<close> is applied to the scheme and the host of a parsed URL and to header
  names. On ASCII it maps \<open>A\<close>..\<open>Z\<close> to \<open>a\<close>..\<open>z\<close> and leaves every other character alone.
\<close>

definition upper_letters :: string where
  "upper_letters = ''ABCDEFGHIJKLMNOPQRSTUVWXYZ''"

definition lower_letters :: string where
  "lower_letters = ''abcdefghijklmnopqrstuvwxyz''"

definition lower_char :: "char \<Rightarrow> char" where
  "lower_char c = (case map_of (zip upper_letters lower_letters) c of Some d \<Rightarrow> d | None \<Rightarrow> c)"

definition toLowerCase :: "string \<Rightarrow> string" where
  "toLowerCase s = map lower_char s"

text \<open>\<^verbatim>\<open>s.startsWith(p)\<close> and \<^verbatim>\<open>s.endsWith(x)\<close>.\<close>

definition startsWith :: "string \<Rightarrow> string \<Rightarrow> bool" where
  "startsWith s p = (take (length p) s = p)"

definition endsWith :: "string \<Rightarrow> string \<Rightarrow> bool" where
  "endsWith s x = (length x \<le> length s \<and> drop (length s - length x) s = x)"

text \<open>
  \<^verbatim>\<open>s.replace(pat, rep)\<close> with a string pattern replaces the first occurrence of
  \<open>pat\<close>, and returns \<open>s\<close> when there is none.
\<close>

fun replace :: "string \<Rightarrow> string \<Rightarrow> string \<Rightarrow> string" where
  "replace pat rep [] = (if pat = [] then rep else [])"
| "replace pat rep (c # cs) =
     (if startsWith (c # cs) pat then rep @ drop (length pat) (c # cs)
      else c # replace pat rep cs)"

text \<open>\<^verbatim>\<open>s.split(d)\<close> for a one-character separator: the pieces between the separators.\<close>

fun split :: "char \<Rightarrow> string \<Rightarrow> string list" where
  "split d [] = [[]]"
| "split d (c # cs) =
     (if c = d then [] # split d cs
      else (case split d cs of [] \<Rightarrow> [[c]] | r # rs \<Rightarrow> (c # r) # rs))"

text \<open>\<^verbatim>\<open>xs.join(",")\<close>, which is also how \<^verbatim>\<open>String\<close> prints an array.\<close>

fun join :: "string \<Rightarrow> string list \<Rightarrow> string" where
  "join sep [] = []"
| "join sep [x] = x"
| "join sep (x # y # ys) = x @ sep @ join sep (y # ys)"

section \<open>Regular expressions of the sources\<close>

text \<open>\<^verbatim>\<open>\d\<close>: an ASCII digit.\<close>

definition is_digit :: "char \<Rightarrow> bool" where
  "is_digit c = (c \<in> set ''0123456789'')"

text \<open>\<^verbatim>\<open>\d{1,3}\<close> matched against a whole piece.\<close>

definition digits_1_3 :: "string \<Rightarrow> bool" where
  "digits_1_3 s = (1 \<le> length s \<and> length s \<le> 3 \<and> list_all is_digit s)"

text \<open>
  \<^verbatim>\<open>/^(\d{1,3}\.){3}\d{1,3}$/\<close> of the second server and \<^verbatim>\<open>/^\d{1,3}(\.\d{1,3}){3}$/\<close> of
  \<^verbatim>\<open>server.js\<close> accept the same strings: four runs of one to three digits, separated by
  dots. A run holds no dot, so the string matches when its pieces between the dots are
  four such runs.
\<close>

definition ipv4 :: "string \<Rightarrow> bool" where
  "ipv4 s =
     (case split CHR ''.'' s of
        [a, b, c, d] \<Rightarrow> digits_1_3 a \<and> digits_1_3 b \<and> digits_1_3 c \<and> digits_1_3 d
      | _ \<Rightarrow> False)"

text \<open>
  \<^verbatim>\<open>/^[a-f0-9:]+$/i\<close> of \<^verbatim>\<open>server.js\<close>: the flag \<^verbatim>\<open>i\<close> adds the upper-case letters to the
  class.
\<close>

definition hex_colon_chars :: string where
  "hex_colon_chars = ''abcdefABCDEF0123456789:''"

definition hex_colon_only :: "string \<Rightarrow> bool" where
  "hex_colon_only s = (s \<noteq> [] \<and> list_all (\<lambda>c. c \<in> set hex_colon_chars) s)"

section \<open>Parsed URLs\<close>

text \<open>
  Both servers parse with a library constructor \<^verbatim>\<open>new URL(s)\<close>: the second server with the
  platform's URL class, \<^verbatim>\<open>server.js\<close> with the package \<^verbatim>\<open>url-parse\<close>. The parser is not code
  of the repository, so it is a parameter of the model: a function that returns the parsed
  object, or \<open>None\<close> where the constructor throws. The record holds the fields the two servers
  read: \<open>protocol\<close>, \<open>hostname\<close>, \<open>pathname\<close>, \<open>search\<close> and \<open>origin\<close> (second server), and
  \<open>host\<close>, \<open>pathname\<close>, \<open>query\<close> and \<open>href\<close>, the result of \<^verbatim>\<open>toString()\<close> (\<^verbatim>\<open>server.js\<close>).
\<close>

record url =
  protocol :: string
  host :: string
  hostname :: string
  pathname :: string
  search :: string
  query :: string
  origin :: string
  href :: string

type_synonym url_parser = "string \<Rightarrow> url option"

section \<open>The second server: \<^verbatim>\<open>parseAndValidateTarget\<close>\<close>

text \<open>
  The validator returns \<^verbatim>\<open>{ ok: false, reason }\<close> or \<^verbatim>\<open>{ ok: true, target }\<close>: a sum, \<open>Inl\<close> the
  reason. The source carries a reason as its message; the constants below give each
  message the name the specification uses for it.
\<close>

definition MissingTarget :: string where
  "MissingTarget = ''Missing 'url' query parameter''"

definition InvalidURL :: string where
  "InvalidURL = ''Invalid URL''"

definition UnsupportedScheme :: string where
  "UnsupportedScheme = ''Only HTTP, HTTPS, WS, and WSS are allowed''"

definition PrivateOrLiteralHost :: string where
  "PrivateOrLiteralHost = ''Private hosts and IP literals are blocked''"

definition DomainNotAllowlisted :: string where
  "DomainNotAllowlisted = ''Domain is not in PROXY_ALLOWLIST''"

definition isPrivateOrIpLiteral :: "string \<Rightarrow> bool" where
  "isPrivateOrIpLiteral h =
     (if h = [] then True
      else if ipv4 h then True
      else if CHR '':'' \<in> set h then True
      else (let lower = toLowerCase h in
            if lower = ''localhost'' \<or> endsWith lower ''.localhost'' then True
            else False))"

text \<open>\<^verbatim>\<open>hostname === domain || hostname.endsWith(`.${domain}`)\<close>, the test both servers use.\<close>

definition domain_matches :: "string \<Rightarrow> string \<Rightarrow> bool" where
  "domain_matches h domain = (h = domain \<or> endsWith h (''.'' @ domain))"

definition allowed_protocols :: "string list" where
  "allowed_protocols = [''http:'', ''https:'', ''ws:'', ''wss:'']"

text \<open>
  \<open>ALLOWLIST\<close> is the list the server computes once at start-up from its environment; the
  validator reads it and nothing else of the process.
\<close>

definition parseAndValidateTarget :: "url_parser \<Rightarrow> string list \<Rightarrow> string \<Rightarrow> string + url" where
  "parseAndValidateTarget new_URL ALLOWLIST target =
     (if target = [] then Inl MissingTarget
      else (case new_URL target of
              None \<Rightarrow> Inl InvalidURL
            | Some parsed \<Rightarrow>
                (let proto = toLowerCase (protocol parsed) in
                 if proto \<notin> set allowed_protocols then Inl UnsupportedScheme
                 else (let h = toLowerCase (hostname parsed) in
                       if isPrivateOrIpLiteral h then Inl PrivateOrLiteralHost
                       else if \<not> list_ex (domain_matches h) ALLOWLIST
                            then Inl DomainNotAllowlisted
                       else Inr parsed))))"

section \<open>\<^verbatim>\<open>server.js\<close>: \<^verbatim>\<open>allowedTarget\<close>\<close>

text \<open>
  \<^verbatim>\<open>PRIVATE_NET_RANGES.some(rx => rx.test(h))\<close>: the eight expressions, in the order of the
  source. \<^verbatim>\<open>/^172\.(1[6-9]|2[0-9]|3[0-1])\./\<close> is a prefix \<open>172.\<close>, one of the sixteen
  numbers 16 to 31, and a dot.
\<close>

definition second_octets_172 :: "string list" where
  "second_octets_172 =
     [''16'', ''17'', ''18'', ''19'', ''20'', ''21'', ''22'', ''23'',
      ''24'', ''25'', ''26'', ''27'', ''28'', ''29'', ''30'', ''31'']"

definition PRIVATE_NET_RANGES :: "string \<Rightarrow> bool" where
  "PRIVATE_NET_RANGES h =
     (startsWith h ''10.'' \<or> startsWith h ''127.'' \<or> startsWith h ''169.254.''
      \<or> list_ex (\<lambda>n. startsWith h (''172.'' @ n @ ''.'')) second_octets_172
      \<or> startsWith h ''192.168.'' \<or> h = ''::1'' \<or> startsWith h ''fc00:''
      \<or> startsWith h ''fe80:'')"

definition isPrivateHost :: "string \<Rightarrow> bool" where
  "isPrivateHost hst =
     (if hst = [] then True
      else (let h = toLowerCase hst in
            if ipv4 h then PRIVATE_NET_RANGES h
            else if hex_colon_only h then True
            else False))"

text \<open>\<^verbatim>\<open>host.split(":")[0]\<close>.\<close>

definition before_colon :: "string \<Rightarrow> string" where
  "before_colon hst = (case split CHR '':'' hst of [] \<Rightarrow> [] | x # _ \<Rightarrow> x)"

text \<open>
  \<^verbatim>\<open>allowedTarget\<close> returns \<^verbatim>\<open>{ ok: false, reason }\<close> or \<^verbatim>\<open>{ ok: true, url: parsed.toString() }\<close>.
  Whatever the constructor throws is caught and reported as \<open>Bad URL\<close>.
\<close>

definition allowedTarget :: "url_parser \<Rightarrow> string list \<Rightarrow> string \<Rightarrow> string + string" where
  "allowedTarget new_URL ALLOWLIST urlStr =
     (case new_URL urlStr of
        None \<Rightarrow> Inl ''Bad URL''
      | Some parsed \<Rightarrow>
          (let hst = toLowerCase (host parsed) in
           if hst = [] then Inl ''No host''
           else if isPrivateHost hst then Inl ''Private/invalid host''
           else (let h = before_colon hst in
                 if list_ex (domain_matches h) ALLOWLIST then Inr (href parsed)
                 else Inl ''Host not in allowlist'')))"

section \<open>Requests, responses and the proxy route\<close>

text \<open>
  \<^verbatim>\<open>req.query.url\<close> is absent (\<open>None\<close>), a string, an array or an object whose values are
  again such values. Of these only the empty string is falsy.

  \<^verbatim>\<open>String(v)\<close> returns a string as it is and an array as its elements, converted in
  the same way, joined by commas. An object prints as \<open>[object Object]\<close>, unless the query
  gave it a key \<open>toString\<close> of its own: the value under that key is not a function, and
  the conversion throws a \<open>TypeError\<close>. \<open>QObj b\<close> is an object, \<open>b\<close> telling whether it has
  such a key; \<open>to_String\<close> is \<open>None\<close> where the conversion throws.
\<close>

datatype qvalue = QStr string | QArr "qvalue list" | QObj bool

fun to_String :: "qvalue \<Rightarrow> string option" where
  "to_String (QStr s) = Some s"
| "to_String (QArr vs) = map_option (join '','') (those (map to_String vs))"
| "to_String (QObj own_toString) =
     (if own_toString then None else Some ''[object Object]'')"

fun truthy :: "qvalue option \<Rightarrow> bool" where
  "truthy None = False"
| "truthy (Some (QStr s)) = (s \<noteq> [])"
| "truthy (Some (QArr vs)) = True"
| "truthy (Some (QObj own_toString)) = True"

record request =
  req_method :: string
  query_url :: "qvalue option"
  path :: string

text \<open>
  \<^verbatim>\<open>String(req.query.url || "")\<close>, the string the second server validates; \<open>None\<close> when the
  conversion throws.
\<close>

definition url_or_empty :: "request \<Rightarrow> string option" where
  "url_or_empty req =
     (case query_url req of
        None \<Rightarrow> Some []
      | Some v \<Rightarrow> if truthy (Some v) then to_String v else Some [])"

text \<open>
  A response is \<^verbatim>\<open>res.status(n).json({...})\<close>, the object as its key-value pairs in order, or
  \<^verbatim>\<open>res.status(n).send(text)\<close>. A thrown error is a value: \<^verbatim>\<open>new Error(message)\<close>, or the
  \<open>TypeError\<close> of a failed conversion.
\<close>

datatype response = Json nat "(string \<times> string) list" | Send nat string

datatype js_error = Error (message: string) | TypeError (message: string)

definition cannot_convert :: js_error where
  "cannot_convert = TypeError ''Cannot convert object to primitive value''"

text \<open>
  What the route does with a request: it answers, or the proxy middleware forwards the
  request to a target under a path, or the route or one of the middleware's callbacks
  throws. \<^verbatim>\<open>createProxyMiddleware\<close> belongs to a library; the model keeps of it that it calls
  \<^verbatim>\<open>router\<close>, then \<^verbatim>\<open>pathRewrite\<close>, and forwards to what they return.
\<close>

datatype outcome =
    Respond response
  | Forward string string
  | RouteThrew js_error
  | RouterThrew js_error
  | RewriteThrew

subsection \<open>The second server\<close>

definition router_part_000 :: "url_parser \<Rightarrow> string list \<Rightarrow> request \<Rightarrow> js_error + string" where
  "router_part_000 new_URL ALLOWLIST req =
     (case url_or_empty req of
        None \<Rightarrow> Inl cannot_convert
      | Some target \<Rightarrow>
          (case parseAndValidateTarget new_URL ALLOWLIST target of
             Inl reason \<Rightarrow> Inl (Error (''REJECTED_TARGET:'' @ reason))
           | Inr t \<Rightarrow> Inr (origin t)))"

text \<open>\<^verbatim>\<open>pathRewrite\<close>: \<open>None\<close> when the conversion of the parameter throws.\<close>

definition pathRewrite_part_000 ::
  "url_parser \<Rightarrow> string list \<Rightarrow> request \<Rightarrow> string option" where
  "pathRewrite_part_000 new_URL ALLOWLIST req =
     (case url_or_empty req of
        None \<Rightarrow> None
      | Some target \<Rightarrow>
          (case parseAndValidateTarget new_URL ALLOWLIST target of
             Inl reason \<Rightarrow> Some ''/''
           | Inr t \<Rightarrow> Some (pathname t @ search t)))"

definition proxy_part_000 :: "url_parser \<Rightarrow> string list \<Rightarrow> request \<Rightarrow> outcome" where
  "proxy_part_000 new_URL ALLOWLIST req =
     (case router_part_000 new_URL ALLOWLIST req of
        Inl e \<Rightarrow> RouterThrew e
      | Inr target \<Rightarrow>
          (case pathRewrite_part_000 new_URL ALLOWLIST req of
             None \<Rightarrow> RewriteThrew
           | Some p \<Rightarrow> Forward target p))"

definition proxy_route_part_000 :: "url_parser \<Rightarrow> string list \<Rightarrow> request \<Rightarrow> outcome" where
  "proxy_route_part_000 new_URL ALLOWLIST req =
     (case url_or_empty req of
        None \<Rightarrow> RouteThrew cannot_convert
      | Some target \<Rightarrow>
          (case parseAndValidateTarget new_URL ALLOWLIST target of
             Inl reason \<Rightarrow> Respond (Json 400 [(''error'', reason)])
           | Inr t \<Rightarrow> proxy_part_000 new_URL ALLOWLIST req))"

subsection \<open>\<^verbatim>\<open>server.js\<close>\<close>

definition router_server_js ::
  "url_parser \<Rightarrow> string list \<Rightarrow> string \<Rightarrow> request \<Rightarrow> js_error + string" where
  "router_server_js new_URL ALLOWLIST DEFAULT_TARGET req =
     (case query_url req of
        None \<Rightarrow> Inr DEFAULT_TARGET
      | Some urlParam \<Rightarrow>
          if \<not> truthy (Some urlParam) then Inr DEFAULT_TARGET
          else (case to_String urlParam of
                  None \<Rightarrow> Inl cannot_convert
                | Some urlStr \<Rightarrow>
                    (case allowedTarget new_URL ALLOWLIST urlStr of
                       Inl reason \<Rightarrow> Inl (Error (''REJECT:'' @ reason))
                     | Inr u \<Rightarrow> Inr urlStr)))"

text \<open>
  \<^verbatim>\<open>pathRewrite\<close> converts and parses again, outside any \<^verbatim>\<open>try\<close>: \<open>None\<close> when the
  conversion or the constructor throws.
\<close>

definition pathRewrite_server_js :: "url_parser \<Rightarrow> request \<Rightarrow> string option" where
  "pathRewrite_server_js new_URL req =
     (case query_url req of
        None \<Rightarrow> Some (path req)
      | Some urlParam \<Rightarrow>
          if \<not> truthy (Some urlParam) then Some (path req)
          else (case to_String urlParam of
                  None \<Rightarrow> None
                | Some urlStr \<Rightarrow>
                    (case new_URL urlStr of
                       None \<Rightarrow> None
                     | Some u \<Rightarrow> Some (pathname u @ query u))))"

definition proxyMiddleware ::
  "url_parser \<Rightarrow> string list \<Rightarrow> string \<Rightarrow> request \<Rightarrow> outcome" where
  "proxyMiddleware new_URL ALLOWLIST DEFAULT_TARGET req =
     (case router_server_js new_URL ALLOWLIST DEFAULT_TARGET req of
        Inl e \<Rightarrow> RouterThrew e
      | Inr target \<Rightarrow>
          (case pathRewrite_server_js new_URL req of
             None \<Rightarrow> RewriteThrew
           | Some p \<Rightarrow> Forward target p))"

definition allowedMethods :: "string list" where
  "allowedMethods = [''GET'', ''POST'', ''PUT'', ''PATCH'', ''DELETE'', ''HEAD'', ''OPTIONS'']"

definition proxy_route_server_js ::
  "url_parser \<Rightarrow> string list \<Rightarrow> string \<Rightarrow> request \<Rightarrow> outcome" where
  "proxy_route_server_js new_URL ALLOWLIST DEFAULT_TARGET req =
     (if req_method req \<notin> set allowedMethods then Respond (Send 405 ''Method Not Allowed'')
      else (case query_url req of
              None \<Rightarrow> proxyMiddleware new_URL ALLOWLIST DEFAULT_TARGET req
            | Some urlParam \<Rightarrow>
                if \<not> truthy (Some urlParam)
                then proxyMiddleware new_URL ALLOWLIST DEFAULT_TARGET req
                else (case to_String urlParam of
                        None \<Rightarrow> RouteThrew cannot_convert
                      | Some urlStr \<Rightarrow>
                          (case allowedTarget new_URL ALLOWLIST urlStr of
                             Inl reason \<Rightarrow>
                               Respond (Json 400 [(''error'', ''Target rejected''),
                                                  (''reason'', reason)])
                           | Inr u \<Rightarrow>
                               proxyMiddleware new_URL ALLOWLIST DEFAULT_TARGET req))))"

section \<open>The hooks of the proxy middleware\<close>

text \<open>
  Header names are case-insensitive: the outgoing request keeps a header under its
  lower-cased name, and the headers of a received response are keyed in lower case. A set
  of headers is a map from the lower-cased name to the value.
\<close>

type_synonym headers = "string \<rightharpoonup> string"

definition removeHeader :: "string \<Rightarrow> headers \<Rightarrow> headers" where
  "removeHeader name hs = hs(toLowerCase name := None)"

definition setHeader :: "string \<Rightarrow> string \<Rightarrow> headers \<Rightarrow> headers" where
  "setHeader name v hs = hs(toLowerCase name \<mapsto> v)"

definition hop_by_hop :: "string list" where
  "hop_by_hop =
     [''connection'', ''keep-alive'', ''proxy-authenticate'', ''proxy-authorization'',
      ''te'', ''trailers'', ''transfer-encoding'', ''upgrade'']"

text \<open>
  \<^verbatim>\<open>onProxyReq(proxyReq)\<close>: the second server sets the identifying header and then removes
  the eight headers; \<^verbatim>\<open>server.js\<close> removes them first. Neither reads anything else of the
  request.
\<close>

definition onProxyReq_part_000 :: "headers \<Rightarrow> headers" where
  "onProxyReq_part_000 hs =
     fold removeHeader hop_by_hop (setHeader ''X-Forwarded-By'' ''safe-proxy-site'' hs)"

definition onProxyReq_server_js :: "headers \<Rightarrow> headers" where
  "onProxyReq_server_js hs =
     setHeader ''X-Forwarded-By'' ''safe-proxy-site'' (fold removeHeader hop_by_hop hs)"

text \<open>\<^verbatim>\<open>onProxyRes(proxyRes)\<close> of \<^verbatim>\<open>server.js\<close>: \<^verbatim>\<open>delete proxyRes.headers[h]\<close> for two names.\<close>

definition onProxyRes_server_js :: "headers \<Rightarrow> headers" where
  "onProxyRes_server_js hs = fold (\<lambda>h m. m(h := None)) [''server'', ''x-powered-by''] hs"

text \<open>
  The options given to \<^verbatim>\<open>createProxyMiddleware\<close> name the response hook, or none: the
  second server passes no \<^verbatim>\<open>onProxyRes\<close>. The middleware hands the headers of the upstream
  response to the hook when there is one, and relays them.
\<close>

definition response_hook_server_js :: "(headers \<Rightarrow> headers) option" where
  "response_hook_server_js = Some onProxyRes_server_js"

definition response_hook_part_000 :: "(headers \<Rightarrow> headers) option" where
  "response_hook_part_000 = None"

definition relayed_headers :: "(headers \<Rightarrow> headers) option \<Rightarrow> headers \<Rightarrow> headers" where
  "relayed_headers hook hs = (case hook of None \<Rightarrow> hs | Some f \<Rightarrow> f hs)"

text \<open>
  \<^verbatim>\<open>onError(error, req, res)\<close> reads the message of the error and \<^verbatim>\<open>res.headersSent\<close>, the
  second argument here. It answers with \<^verbatim>\<open>res.status(n).json(...)\<close> or does nothing. The
  branch for a marked message does not look at \<^verbatim>\<open>res.headersSent\<close>: when the headers are
  already sent, \<^verbatim>\<open>json\<close> throws and nothing is answered.
\<close>

datatype handled = Answered response | Unanswered | AnswerThrew

definition onError_part_000 :: "js_error \<Rightarrow> bool \<Rightarrow> handled" where
  "onError_part_000 error headersSent =
     (if startsWith (message error) ''REJECTED_TARGET:''
      then (if headersSent then AnswerThrew
            else Answered (Json 400 [(''error'',
                    replace ''REJECTED_TARGET:'' [] (message error))]))
      else if \<not> headersSent
      then Answered (Json 502 [(''error'', ''Proxy request failed''),
                               (''detail'', message error)])
      else Unanswered)"

definition onError_server_js :: "js_error \<Rightarrow> bool \<Rightarrow> handled" where
  "onError_server_js err headersSent =
     (if startsWith (message err) ''REJECT:''
      then (if headersSent then AnswerThrew
            else Answered (Json 400 [(''error'', ''Target rejected''),
                    (''reason'', replace ''REJECT:'' [] (message err))]))
      else if \<not> headersSent
      then Answered (Json 502 [(''error'', ''Bad gateway''), (''detail'', message err)])
      else Unanswered)"

section \<open>Worked inputs\<close>

text \<open>
  The objects both parsers return on the URLs of the worked examples. \<open>mk_url\<close> fills a
  record from the scheme, the host with its port, the host name, the path and the query
  string; \<open>example_URL\<close> is a parser that knows these URLs and throws on every other string.
\<close>

definition mk_url :: "string \<Rightarrow> string \<Rightarrow> string \<Rightarrow> string \<Rightarrow> string \<Rightarrow> url" where
  "mk_url proto hostport name p q =
     \<lparr>protocol = proto, host = hostport, hostname = name, pathname = p, search = q,
      query = q, origin = proto @ ''//'' @ hostport, href = proto @ ''//'' @ hostport @ p @ q\<rparr>"

definition example_com_foo :: url where
  "example_com_foo = mk_url ''https:'' ''example.com'' ''example.com'' ''/foo'' ''?x=1''"

definition loopback_8080 :: url where
  "loopback_8080 = mk_url ''http:'' ''127.0.0.1:8080'' ''127.0.0.1'' ''/'' []"

definition ftp_example_com :: url where
  "ftp_example_com = mk_url ''ftp:'' ''example.com'' ''example.com'' ''/'' []"

definition ftp_loopback :: url where
  "ftp_loopback = mk_url ''ftp:'' ''127.0.0.1'' ''127.0.0.1'' ''/'' []"

definition loopback :: url where
  "loopback = mk_url ''http:'' ''127.0.0.1'' ''127.0.0.1'' ''/'' []"

definition abc_host :: url where
  "abc_host = mk_url ''http:'' ''abc'' ''abc'' ''/'' []"

definition evil_com :: url where
  "evil_com = mk_url ''https:'' ''evil-com.com'' ''evil-com.com'' ''/'' []"

definition evil_example :: url where
  "evil_example = mk_url ''https:'' ''evil-example.com.com'' ''evil-example.com.com'' ''/'' []"

definition api_example_com :: url where
  "api_example_com = mk_url ''wss:'' ''api.example.com:8443'' ''api.example.com'' ''/feed'' []"

definition example_URL :: url_parser where
  "example_URL s =
     (if s = ''https://example.com/foo?x=1'' then Some example_com_foo
      else if s = ''http://127.0.0.1:8080/'' then Some loopback_8080
      else if s = ''http://127.0.0.1/'' then Some loopback
      else if s = ''http://abc/'' then Some abc_host
      else if s = ''ftp://example.com/'' then Some ftp_example_com
      else if s = ''ftp://127.0.0.1/'' then Some ftp_loopback
      else if s = ''https://evil-com.com/'' then Some evil_com
      else if s = ''https://evil-example.com.com/'' then Some evil_example
      else if s = ''wss://api.example.com:8443/feed'' then Some api_example_com
      else None)"

text \<open>The same parser, with every scheme it returns replaced by \<open>http:\<close>.\<close>

definition example_URL_as_http :: url_parser where
  "example_URL_as_http s = map_option (\<lambda>v. v\<lparr>protocol := ''http:''\<rparr>) (example_URL s)"

definition get_request :: "qvalue option \<Rightarrow> request" where
  "get_request q = \<lparr>req_method = ''GET'', query_url = q, path = ''/proxy''\<rparr>"

definition trace_request :: "qvalue option \<Rightarrow> request" where
  "trace_request q = \<lparr>req_method = ''TRACE'', query_url = q, path = ''/proxy''\<rparr>"

definition upgrade_headers :: headers where
  "upgrade_headers =
     [''host'' \<mapsto> ''example.com'', ''upgrade'' \<mapsto> ''websocket'',
      ''connection'' \<mapsto> ''Upgrade'', ''sec-websocket-version'' \<mapsto> ''13'']"

definition upstream_headers :: headers where
  "upstream_headers =
     [''server'' \<mapsto> ''nginx'', ''x-powered-by'' \<mapsto> ''PHP'',
      ''content-type'' \<mapsto> ''text/html'']"

section \<open>Facts about the string functions\<close>

lemmas lc_defs = lower_char_def upper_letters_def lower_letters_def

lemma lower_char_colon: "lower_char c = CHR '':'' \<longleftrightarrow> c = CHR '':''"
  by (auto simp: lc_defs)
lemma lower_char_dot: "lower_char c = CHR ''.'' \<longleftrightarrow> c = CHR ''.''"
  by (auto simp: lc_defs)
lemma lower_char_digit: "is_digit (lower_char c) = is_digit c"
  by (auto simp: lc_defs is_digit_def)
lemma lower_char_idem: "lower_char (lower_char c) = lower_char c"
  by (auto simp: lc_defs)

lemma toLowerCase_idem: "toLowerCase (toLowerCase s) = toLowerCase s"
  by (simp add: toLowerCase_def lower_char_idem)

lemma toLowerCase_Nil: "toLowerCase s = [] \<longleftrightarrow> s = []"
  by (simp add: toLowerCase_def)

lemma colon_lower: "CHR '':'' \<in> set (toLowerCase s) \<longleftrightarrow> CHR '':'' \<in> set s"
  by (induction s) (simp_all add: toLowerCase_def lower_char_colon eq_commute [of "CHR '':''"])

lemma split_nonempty: "split d s \<noteq> []"
  by (induction s) (auto split: list.splits)

lemma split_lower_dot: "split CHR ''.'' (toLowerCase s) = map toLowerCase (split CHR ''.'' s)"
  by (induction s) (auto simp: toLowerCase_def lower_char_dot split: list.splits)

lemma digits_lower: "digits_1_3 (toLowerCase s) = digits_1_3 s"
  by (simp add: digits_1_3_def toLowerCase_def list_all_iff lower_char_digit)

lemma ipv4_lower: "ipv4 (toLowerCase s) = ipv4 s"
  by (auto simp: ipv4_def split_lower_dot digits_lower split: list.splits)

lemma isPrivateOrIpLiteral_lower: "isPrivateOrIpLiteral (toLowerCase h) = isPrivateOrIpLiteral h"
  by (simp add: isPrivateOrIpLiteral_def ipv4_lower colon_lower toLowerCase_idem toLowerCase_Nil)

lemma endsWith_iff: "endsWith s x \<longleftrightarrow> (\<exists>p. s = p @ x)"
proof
  assume "endsWith s x"
  then have "s = take (length s - length x) s @ x"
    by (metis append_take_drop_id endsWith_def)
  then show "\<exists>p. s = p @ x" ..
next
  assume "\<exists>p. s = p @ x"
  then show "endsWith s x" by (auto simp: endsWith_def)
qed

lemma startsWith_iff: "startsWith s p \<longleftrightarrow> (\<exists>r. s = p @ r)"
proof
  assume "startsWith s p"
  then have "s = p @ drop (length p) s"
    by (metis append_take_drop_id startsWith_def)
  then show "\<exists>r. s = p @ r" ..
next
  assume "\<exists>r. s = p @ r"
  then show "startsWith s p" by (auto simp: startsWith_def)
qed

lemma replace_prefix: "startsWith s p \<Longrightarrow> replace p r s = r @ drop (length p) s"
  by (cases s) (auto simp: startsWith_def)

lemma replace_marker: "replace p [] (p @ x) = x"
  using replace_prefix [of "p @ x" p "[]"] by (simp add: startsWith_def)

lemma split_single: "d \<notin> set a \<Longrightarrow> split d a = [a]"
  by (induction a) auto

lemma split_append: "d \<notin> set a \<Longrightarrow> split d (a @ d # r) = a # split d r"
  by (induction a) auto

lemma split_cons_cases:
  "split d s = a # rs \<Longrightarrow> (rs = [] \<and> s = a) \<or> (\<exists>r. s = a @ d # r \<and> split d r = rs)"
proof (induction s arbitrary: a rs)
  case Nil
  then show ?case by simp
next
  case (Cons c cs)
  show ?case
  proof (cases "c = d")
    case True
    with Cons.prems have "a = []" "rs = split d cs" by simp_all
    with True show ?thesis by simp
  next
    case False
    obtain a' rs' where sp: "split d cs = a' # rs'"
      using split_nonempty [of d cs] by (cases "split d cs") auto
    with False Cons.prems have a: "a = c # a'" "rs = rs'" by simp_all
    from Cons.IH [OF sp] have "(rs' = [] \<and> cs = a') \<or> (\<exists>r. cs = a' @ d # r \<and> split d r = rs')" .
    then show ?thesis
    proof
      assume "rs' = [] \<and> cs = a'"
      with a show ?thesis by simp
    next
      assume "\<exists>r. cs = a' @ d # r \<and> split d r = rs'"
      then obtain r where "cs = a' @ d # r" "split d r = rs'" by blast
      with a show ?thesis by simp
    qed
  qed
qed

lemma digits_no_dot:
  assumes "digits_1_3 a" shows "CHR ''.'' \<notin> set a"
proof
  assume "CHR ''.'' \<in> set a"
  with assms have "is_digit CHR ''.''" by (simp add: digits_1_3_def list_all_iff)
  then show False by (simp add: is_digit_def)
qed

lemma ipv4_iff:
  "ipv4 s \<longleftrightarrow>
     (\<exists>a b c d. s = a @ ''.'' @ b @ ''.'' @ c @ ''.'' @ d
         \<and> digits_1_3 a \<and> digits_1_3 b \<and> digits_1_3 c \<and> digits_1_3 d)"
proof
  assume "ipv4 s"
  then obtain a b c d where sp: "split CHR ''.'' s = [a, b, c, d]"
     and dg: "digits_1_3 a" "digits_1_3 b" "digits_1_3 c" "digits_1_3 d"
    by (auto simp: ipv4_def split: list.splits)
  from split_cons_cases [OF sp] obtain r1 where r1: "s = a @ CHR ''.'' # r1" "split CHR ''.'' r1 = [b, c, d]"
    by auto
  from split_cons_cases [OF r1(2)] obtain r2 where r2: "r1 = b @ CHR ''.'' # r2" "split CHR ''.'' r2 = [c, d]"
    by auto
  from split_cons_cases [OF r2(2)] obtain r3 where r3: "r2 = c @ CHR ''.'' # r3" "split CHR ''.'' r3 = [d]"
    by auto
  from split_cons_cases [OF r3(2)] have "r3 = d" by (auto simp: split_nonempty)
  with r1 r2 r3 have "s = a @ ''.'' @ b @ ''.'' @ c @ ''.'' @ d" by simp
  with dg show "\<exists>a b c d. s = a @ ''.'' @ b @ ''.'' @ c @ ''.'' @ d
         \<and> digits_1_3 a \<and> digits_1_3 b \<and> digits_1_3 c \<and> digits_1_3 d"
    by blast
next
  assume "\<exists>a b c d. s = a @ ''.'' @ b @ ''.'' @ c @ ''.'' @ d
         \<and> digits_1_3 a \<and> digits_1_3 b \<and> digits_1_3 c \<and> digits_1_3 d"
  then obtain a b c d where s: "s = a @ ''.'' @ b @ ''.'' @ c @ ''.'' @ d"
     and dg: "digits_1_3 a" "digits_1_3 b" "digits_1_3 c" "digits_1_3 d"
    by blast
  have "split CHR ''.'' (c @ CHR ''.'' # d) = [c, d]"
    using dg by (simp add: split_append split_single digits_no_dot del: split.simps)
  then have "split CHR ''.'' (b @ CHR ''.'' # c @ CHR ''.'' # d) = [b, c, d]"
    using dg by (simp add: split_append digits_no_dot del: split.simps)
  then have "split CHR ''.'' (a @ CHR ''.'' # b @ CHR ''.'' # c @ CHR ''.'' # d) = [a, b, c, d]"
    using dg by (simp add: split_append digits_no_dot del: split.simps)
  then have "split CHR ''.'' s = [a, b, c, d]"
    by (simp add: s)
  with dg show "ipv4 s" by (simp add: ipv4_def)
qed

section \<open>Facts about the validators, the routes and the hooks\<close>

lemma validate_parsed:
  "target \<noteq> [] \<Longrightarrow> new_URL target = Some u \<Longrightarrow>
   parseAndValidateTarget new_URL ALLOWLIST target =
     (if toLowerCase (protocol u) \<notin> set allowed_protocols then Inl UnsupportedScheme
      else if isPrivateOrIpLiteral (hostname u) then Inl PrivateOrLiteralHost
      else if \<not> list_ex (domain_matches (toLowerCase (hostname u))) ALLOWLIST
           then Inl DomainNotAllowlisted
      else Inr u)"
  by (simp add: parseAndValidateTarget_def Let_def isPrivateOrIpLiteral_lower)

lemma validate_accept_iff:
  "parseAndValidateTarget new_URL ALLOWLIST target = Inr u \<longleftrightarrow>
     target \<noteq> [] \<and> new_URL target = Some u
     \<and> toLowerCase (protocol u) \<in> set allowed_protocols
     \<and> \<not> isPrivateOrIpLiteral (hostname u)
     \<and> list_ex (domain_matches (toLowerCase (hostname u))) ALLOWLIST"
proof (cases "target = []")
  case True
  then show ?thesis by (simp add: parseAndValidateTarget_def)
next
  case False
  show ?thesis
  proof (cases "new_URL target")
    case None
    with False show ?thesis by (simp add: parseAndValidateTarget_def)
  next
    case (Some v)
    with False show ?thesis by (auto simp: validate_parsed)
  qed
qed

lemma literal_is_private:
  "ipv4 h \<or> CHR '':'' \<in> set h \<Longrightarrow> isPrivateOrIpLiteral h"
  by (auto simp: isPrivateOrIpLiteral_def)

lemma allowed_parsed:
  "new_URL urlStr = Some u \<Longrightarrow>
   allowedTarget new_URL ALLOWLIST urlStr =
     (if host u = [] then Inl ''No host''
      else if isPrivateHost (toLowerCase (host u)) then Inl ''Private/invalid host''
      else if list_ex (domain_matches (before_colon (toLowerCase (host u)))) ALLOWLIST
           then Inr (href u)
      else Inl ''Host not in allowlist'')"
  by (simp add: allowedTarget_def Let_def toLowerCase_Nil)

lemma ipv4_chars:
  assumes "ipv4 s" "x \<in> set s" shows "is_digit x \<or> x = CHR ''.''"
proof -
  from assms(1) obtain a b c d where s: "s = a @ ''.'' @ b @ ''.'' @ c @ ''.'' @ d"
     and dg: "digits_1_3 a" "digits_1_3 b" "digits_1_3 c" "digits_1_3 d"
    unfolding ipv4_iff by blast
  from assms(2) s have "x \<in> set a \<or> x \<in> set b \<or> x \<in> set c \<or> x \<in> set d \<or> x = CHR ''.''"
    by auto
  with dg show ?thesis by (auto simp: digits_1_3_def list_all_iff)
qed

lemma allowed_ignores_protocol:
  "parser s = Some v \<Longrightarrow> parser' s = Some (v\<lparr>protocol := p\<rparr>) \<Longrightarrow>
   allowedTarget parser' ALLOWLIST s = allowedTarget parser ALLOWLIST s"
  by (simp add: allowed_parsed)

lemma list_ex_domain:
  "list_ex (domain_matches h) ALLOWLIST \<longleftrightarrow> (\<exists>e\<in>set ALLOWLIST. h = e \<or> endsWith h (''.'' @ e))"
  by (simp add: list_ex_iff domain_matches_def)

lemma endsWith_last:
  assumes "endsWith (a @ [c]) (b @ [d])" shows "c = d"
proof -
  from assms obtain p where "a @ [c] = p @ b @ [d]" unfolding endsWith_iff by blast
  then have "last (a @ [c]) = last ((p @ b) @ [d])" by simp
  then show ?thesis by (simp only: last_snoc)
qed

lemma evil_not_private:
  assumes "CHR '':'' \<notin> set e"
  shows "\<not> isPrivateOrIpLiteral (''evil-'' @ e @ ''.com'')"
proof -
  let ?h = "''evil-'' @ e @ ''.com''"
  have "\<not> ipv4 ?h"
  proof
    assume "ipv4 ?h"
    moreover have "CHR ''e'' \<in> set ?h" by simp
    ultimately have "is_digit CHR ''e'' \<or> CHR ''e'' = CHR ''.''" by (rule ipv4_chars)
    then show False by (simp add: is_digit_def)
  qed
  moreover have "CHR '':'' \<notin> set ?h" using assms by simp
  moreover have "toLowerCase ?h \<noteq> ''localhost''" by (simp add: toLowerCase_def lc_defs)
  moreover have "\<not> endsWith (toLowerCase ?h) ''.localhost''"
  proof
    assume a: "endsWith (toLowerCase ?h) ''.localhost''"
    have "toLowerCase ?h = (''evil-'' @ toLowerCase e @ ''.co'') @ ''m''"
      by (simp add: toLowerCase_def lc_defs)
    with a have "endsWith ((''evil-'' @ toLowerCase e @ ''.co'') @ [CHR ''m'']) (''.localhos'' @ [CHR ''t''])"
      by simp
    then have "CHR ''m'' = CHR ''t''" by (rule endsWith_last)
    then show False by simp
  qed
  ultimately show ?thesis by (simp add: isPrivateOrIpLiteral_def Let_def)
qed

lemma allowed_accept_iff:
  "allowedTarget parser ALLOWLIST s = Inr x \<longleftrightarrow>
     (\<exists>v. parser s = Some v \<and> x = href v \<and> host v \<noteq> []
        \<and> \<not> isPrivateHost (toLowerCase (host v))
        \<and> list_ex (domain_matches (before_colon (toLowerCase (host v)))) ALLOWLIST)"
proof (cases "parser s")
  case None
  then show ?thesis by (simp add: allowedTarget_def)
next
  case (Some v)
  then show ?thesis by (auto simp: allowed_parsed)
qed

lemma literal_host_rejected:
  assumes "target \<noteq> []" and "new_URL target = Some u"
    and "ipv4 (hostname u) \<or> CHR '':'' \<in> set (hostname u)"
  shows "parseAndValidateTarget new_URL ALLOWLIST target
          = (if toLowerCase (protocol u) \<in> set allowed_protocols
             then Inl PrivateOrLiteralHost else Inl UnsupportedScheme)"
  using assms literal_is_private [of "hostname u"] by (simp add: validate_parsed)

lemma validator_accepts:
  assumes "target \<noteq> []" and "new_URL target = Some u"
    and "toLowerCase (protocol u) \<in> set allowed_protocols"
    and "\<not> isPrivateOrIpLiteral (hostname u)"
    and "\<exists>e\<in>set ALLOWLIST. toLowerCase (hostname u) = e
           \<or> endsWith (toLowerCase (hostname u)) (''.'' @ e)"
  shows "parseAndValidateTarget new_URL ALLOWLIST target = Inr u"
  using assms by (simp add: validate_accept_iff list_ex_domain)

lemma not_truthy_iff: "\<not> truthy q \<longleftrightarrow> q = None \<or> q = Some (QStr [])"
  by (cases q rule: truthy.cases) simp_all

lemma url_or_empty_absent: "\<not> truthy (query_url req) \<Longrightarrow> url_or_empty req = Some []"
  by (auto simp: url_or_empty_def split: option.splits)

lemma url_or_empty_truthy:
  "query_url req = Some v \<Longrightarrow> truthy (Some v) \<Longrightarrow> url_or_empty req = to_String v"
  by (simp add: url_or_empty_def)

lemma router_part_000_accept:
  "url_or_empty req = Some s \<Longrightarrow> parseAndValidateTarget new_URL ALLOWLIST s = Inr t \<Longrightarrow>
   router_part_000 new_URL ALLOWLIST req = Inr (origin t)"
  by (simp add: router_part_000_def)

lemma route_part_000_cases:
  "proxy_route_part_000 new_URL ALLOWLIST req =
     (case url_or_empty req of
        None \<Rightarrow> RouteThrew cannot_convert
      | Some s \<Rightarrow>
          (case parseAndValidateTarget new_URL ALLOWLIST s of
             Inl reason \<Rightarrow> Respond (Json 400 [(''error'', reason)])
           | Inr t \<Rightarrow> Forward (origin t) (pathname t @ search t)))"
  by (simp add: proxy_route_part_000_def proxy_part_000_def router_part_000_def
      pathRewrite_part_000_def split: sum.splits option.splits)

lemma router_server_js_default:
  "\<not> truthy (query_url req) \<Longrightarrow>
   router_server_js parser ALLOWLIST DEFAULT_TARGET req = Inr DEFAULT_TARGET"
  by (auto simp: router_server_js_def split: option.splits)

lemma pathRewrite_server_js_default:
  "\<not> truthy (query_url req) \<Longrightarrow> pathRewrite_server_js parser req = Some (path req)"
  by (auto simp: pathRewrite_server_js_def split: option.splits)

lemma router_server_js_accept:
  "query_url req = Some v \<Longrightarrow> truthy (Some v) \<Longrightarrow> to_String v = Some s \<Longrightarrow>
   allowedTarget parser ALLOWLIST s = Inr x \<Longrightarrow>
   router_server_js parser ALLOWLIST DEFAULT_TARGET req = Inr s"
  by (simp add: router_server_js_def)

lemma route_part_000_never_throws:
  "proxy_route_part_000 new_URL ALLOWLIST req \<noteq> RouterThrew e"
  by (simp add: route_part_000_cases split: sum.splits option.splits)

lemma route_server_js_never_throws:
  "proxy_route_server_js parser ALLOWLIST DEFAULT_TARGET req \<noteq> RouterThrew e"
proof (cases "req_method req \<in> set allowedMethods")
  case False
  then show ?thesis by (simp add: proxy_route_server_js_def)
next
  case m: True
  show ?thesis
  proof (cases "truthy (query_url req)")
    case False
    then have "proxyMiddleware parser ALLOWLIST DEFAULT_TARGET req
        = Forward DEFAULT_TARGET (path req)"
      by (simp add: proxyMiddleware_def router_server_js_default pathRewrite_server_js_default)
    with False m show ?thesis
      by (auto simp: proxy_route_server_js_def split: option.splits)
  next
    case True
    then obtain v where v: "query_url req = Some v" by (cases "query_url req") auto
    show ?thesis
    proof (cases "to_String v")
      case None
      with m v True show ?thesis by (simp add: proxy_route_server_js_def)
    next
      case (Some s)
      show ?thesis
      proof (cases "allowedTarget parser ALLOWLIST s")
        case (Inl r)
        with m v True Some show ?thesis by (simp add: proxy_route_server_js_def)
      next
        case (Inr x)
        with v True Some
        have "router_server_js parser ALLOWLIST DEFAULT_TARGET req = Inr s"
          by (simp add: router_server_js_accept)
        then have "proxyMiddleware parser ALLOWLIST DEFAULT_TARGET req \<noteq> RouterThrew e"
          by (simp add: proxyMiddleware_def split: option.splits)
        with m v True Some Inr show ?thesis by (simp add: proxy_route_server_js_def)
      qed
    qed
  qed
qed

lemma url_or_empty_method: "url_or_empty (req\<lparr>req_method := m\<rparr>) = url_or_empty req"
  by (simp add: url_or_empty_def)

lemma route_part_000_ignores_method:
  "proxy_route_part_000 new_URL ALLOWLIST (req\<lparr>req_method := m\<rparr>)
     = proxy_route_part_000 new_URL ALLOWLIST req"
  by (simp add: route_part_000_cases url_or_empty_method)

lemma hop_by_hop_removed:
  "fold removeHeader hop_by_hop hs h = (if h \<in> set hop_by_hop then None else hs h)"
  by (simp add: hop_by_hop_def removeHeader_def toLowerCase_def lc_defs)

lemma forwarded_by_not_hop: "''x-forwarded-by'' \<notin> set hop_by_hop"
  by (simp add: hop_by_hop_def)

lemma setHeader_forwarded_by:
  "setHeader ''X-Forwarded-By'' v hs = hs(''x-forwarded-by'' \<mapsto> v)"
  by (simp add: setHeader_def toLowerCase_def lc_defs)

lemma onProxyReq_part_000_at:
  "onProxyReq_part_000 hs h =
     (if h \<in> set hop_by_hop then None
      else if h = ''x-forwarded-by'' then Some ''safe-proxy-site'' else hs h)"
  by (simp add: onProxyReq_part_000_def hop_by_hop_removed setHeader_forwarded_by)

lemma onProxyReq_server_js_at:
  "onProxyReq_server_js hs h =
     (if h \<in> set hop_by_hop then None
      else if h = ''x-forwarded-by'' then Some ''safe-proxy-site'' else hs h)"
  using forwarded_by_not_hop
  by (auto simp: onProxyReq_server_js_def hop_by_hop_removed setHeader_forwarded_by)

lemma onProxyReq_same: "onProxyReq_server_js hs = onProxyReq_part_000 hs"
  by (rule ext) (simp only: onProxyReq_part_000_at onProxyReq_server_js_at)

lemma onProxyRes_server_js_at:
  "onProxyRes_server_js hs h = (if h = ''server'' \<or> h = ''x-powered-by'' then None else hs h)"
  by (simp add: onProxyRes_server_js_def)

text \<open>
  \<^verbatim>\<open>onError\<close> decides by the text of the message alone: it takes the branch of a rejection
  exactly when the message starts with the marker, whatever the kind of the error.
\<close>

lemma onError_part_000_by_message:
  "onError_part_000 e sent =
     (if startsWith (message e) ''REJECTED_TARGET:''
      then (if sent then AnswerThrew
            else Answered (Json 400 [(''error'', drop (length ''REJECTED_TARGET:'') (message e))]))
      else if sent then Unanswered
      else Answered (Json 502 [(''error'', ''Proxy request failed''), (''detail'', message e)]))"
  using replace_prefix [of "message e" "''REJECTED_TARGET:''" "[]"]
  by (simp add: onError_part_000_def del: length_Cons list.size)

lemma onError_server_js_by_message:
  "onError_server_js e sent =
     (if startsWith (message e) ''REJECT:''
      then (if sent then AnswerThrew
            else Answered (Json 400 [(''error'', ''Target rejected''),
                                     (''reason'', drop (length ''REJECT:'') (message e))]))
      else if sent then Unanswered
      else Answered (Json 502 [(''error'', ''Bad gateway''), (''detail'', message e)]))"
  using replace_prefix [of "message e" "''REJECT:''" "[]"]
  by (simp add: onError_server_js_def del: length_Cons list.size)

text \<open>The definitions a worked input is evaluated with.\<close>

lemmas example_defs =
  example_URL_def mk_url_def example_com_foo_def loopback_8080_def ftp_example_com_def
  ftp_loopback_def evil_com_def evil_example_def api_example_com_def loopback_def abc_host_def

lemmas eval_defs =
  toLowerCase_def lc_defs allowed_protocols_def isPrivateOrIpLiteral_def ipv4_def
  digits_1_3_def is_digit_def endsWith_def startsWith_def domain_matches_def Let_def

lemmas eval_host_defs =
  isPrivateHost_def hex_colon_only_def hex_colon_chars_def before_colon_def
  PRIVATE_NET_RANGES_def second_octets_172_def

section \<open>The claims\<close>

text \<open>
  C1. The example of the claim, in \<^verbatim>\<open>server.js\<close>. \<^verbatim>\<open>allowedTarget\<close> hands the host with its
  port to \<^verbatim>\<open>isPrivateHost\<close>, so the loopback address \<open>127.0.0.1\<close>, which it rejects as private
  when no port follows, is not recognised in \<^verbatim>\<open>http://127.0.0.1:8080/\<close>: with \<open>127.0.0.1\<close> in
  the allowlist the target is accepted and the route forwards the request to it, and with
  the allowlist \<open>example.com\<close> the answer is 400 for a host that is not allowlisted, not for
  a private one. \<^verbatim>\<open>parseAndValidateTarget\<close> rejects the same target with
  \<open>PrivateOrLiteralHost\<close> although the allowlist holds the host name.
\<close>

theorem C1_loopback_with_port:
  "allowedTarget example_URL [''127.0.0.1''] ''http://127.0.0.1:8080/''
     = Inr ''http://127.0.0.1:8080/''
   \<and> proxy_route_server_js example_URL [''127.0.0.1''] ''https://example.com''
        (get_request (Some (QStr ''http://127.0.0.1:8080/'')))
     = Forward ''http://127.0.0.1:8080/'' ''/''
   \<and> allowedTarget example_URL [''127.0.0.1''] ''http://127.0.0.1/''
     = Inl ''Private/invalid host''
   \<and> proxy_route_server_js example_URL [''example.com''] ''https://example.com''
        (get_request (Some (QStr ''http://127.0.0.1:8080/'')))
     = Respond (Json 400 [(''error'', ''Target rejected''),
                          (''reason'', ''Host not in allowlist'')])
   \<and> parseAndValidateTarget example_URL [''127.0.0.1''] ''http://127.0.0.1:8080/''
     = Inl PrivateOrLiteralHost"
proof -
  have a: "allowedTarget example_URL [''127.0.0.1''] ''http://127.0.0.1:8080/''
      = Inr ''http://127.0.0.1:8080/''"
    by (simp add: allowedTarget_def example_defs eval_defs eval_host_defs)
  have b: "allowedTarget example_URL [''example.com''] ''http://127.0.0.1:8080/''
      = Inl ''Host not in allowlist''"
    by (simp add: allowedTarget_def example_defs eval_defs eval_host_defs)
  have c: "allowedTarget example_URL [''127.0.0.1''] ''http://127.0.0.1/''
      = Inl ''Private/invalid host''"
    by (simp add: allowedTarget_def example_defs eval_defs eval_host_defs)
  have d: "parseAndValidateTarget example_URL [''127.0.0.1''] ''http://127.0.0.1:8080/''
      = Inl PrivateOrLiteralHost"
    by (simp add: parseAndValidateTarget_def example_defs eval_defs)
  have p: "example_URL ''http://127.0.0.1:8080/'' = Some loopback_8080"
    "pathname loopback_8080 @ query loopback_8080 = ''/''"
    by (simp_all add: example_defs)
  have m: "req_method (get_request q) \<in> set allowedMethods" for q
    by (simp add: get_request_def allowedMethods_def)
  have q: "query_url (get_request q) = q" for q by (simp add: get_request_def)
  from a p m q
  have f: "proxy_route_server_js example_URL [''127.0.0.1''] ''https://example.com''
        (get_request (Some (QStr ''http://127.0.0.1:8080/'')))
      = Forward ''http://127.0.0.1:8080/'' ''/''"
    by (simp add: proxy_route_server_js_def proxyMiddleware_def router_server_js_def
        pathRewrite_server_js_def)
  from b m q
  have r: "proxy_route_server_js example_URL [''example.com''] ''https://example.com''
        (get_request (Some (QStr ''http://127.0.0.1:8080/'')))
      = Respond (Json 400 [(''error'', ''Target rejected''),
                           (''reason'', ''Host not in allowlist'')])"
    by (simp add: proxy_route_server_js_def)
  from a f c r d show ?thesis by (intro conjI)
qed

text \<open>
  C2. \<^verbatim>\<open>parseAndValidateTarget\<close> rejects every non-empty input that parses with a scheme
  other than http, https, ws and wss, compared in lower case, with the reason
  \<open>UnsupportedScheme\<close>, and a target it accepts has one of the four schemes.
  \<^verbatim>\<open>allowedTarget\<close> of \<^verbatim>\<open>server.js\<close> does not look at the scheme: its verdict is the same
  whatever the parsed \<open>protocol\<close> is.
\<close>

theorem C2_scheme_allowlist:
  "(target \<noteq> [] \<and> new_URL target = Some u
      \<and> toLowerCase (protocol u) \<notin> set allowed_protocols
    \<longrightarrow> parseAndValidateTarget new_URL ALLOWLIST target = Inl UnsupportedScheme)
   \<and> (parseAndValidateTarget new_URL ALLOWLIST target = Inr u
    \<longrightarrow> new_URL target = Some u \<and> toLowerCase (protocol u) \<in> set allowed_protocols)
   \<and> (parser s = Some v \<and> parser' s = Some (v\<lparr>protocol := p\<rparr>)
    \<longrightarrow> allowedTarget parser' ALLOWLIST s = allowedTarget parser ALLOWLIST s)"
proof (intro conjI impI)
  assume "target \<noteq> [] \<and> new_URL target = Some u
      \<and> toLowerCase (protocol u) \<notin> set allowed_protocols"
  then show "parseAndValidateTarget new_URL ALLOWLIST target = Inl UnsupportedScheme"
    by (simp add: validate_parsed)
next
  assume a: "parseAndValidateTarget new_URL ALLOWLIST target = Inr u"
  then show "new_URL target = Some u" by (simp add: validate_accept_iff)
  from a show "toLowerCase (protocol u) \<in> set allowed_protocols"
    by (simp add: validate_accept_iff)
next
  assume "parser s = Some v \<and> parser' s = Some (v\<lparr>protocol := p\<rparr>)"
  then have "parser s = Some v" and "parser' s = Some (v\<lparr>protocol := p\<rparr>)" by simp_all
  then show "allowedTarget parser' ALLOWLIST s = allowedTarget parser ALLOWLIST s"
    by (rule allowed_ignores_protocol)
qed

theorem C2_witness:
  "parseAndValidateTarget example_URL [''example.com''] ''ftp://example.com/'' = Inl UnsupportedScheme
   \<and> toLowerCase (protocol example_com_foo) \<in> set allowed_protocols
   \<and> allowedTarget example_URL_as_http [''example.com''] ''ftp://example.com/''
       = allowedTarget example_URL [''example.com''] ''ftp://example.com/''"
proof -
  have h1: "''ftp://example.com/'' \<noteq> [] \<and> example_URL ''ftp://example.com/'' = Some ftp_example_com
      \<and> toLowerCase (protocol ftp_example_com) \<notin> set allowed_protocols"
    by (simp add: example_defs eval_defs)
  have h2: "parseAndValidateTarget example_URL [''example.com''] ''https://example.com/foo?x=1''
      = Inr example_com_foo"
    by (simp add: parseAndValidateTarget_def example_defs eval_defs)
  have h3: "example_URL ''ftp://example.com/'' = Some ftp_example_com
      \<and> example_URL_as_http ''ftp://example.com/'' = Some (ftp_example_com\<lparr>protocol := ''http:''\<rparr>)"
    by (simp add: example_URL_as_http_def example_defs)
  note c1 = C2_scheme_allowlist [where new_URL = example_URL and u = ftp_example_com
      and target = "''ftp://example.com/''" and ALLOWLIST = "[''example.com'']"]
  note c2 = C2_scheme_allowlist [where new_URL = example_URL and u = example_com_foo
      and target = "''https://example.com/foo?x=1''" and ALLOWLIST = "[''example.com'']"]
  note c3 = C2_scheme_allowlist [where parser = example_URL and parser' = example_URL_as_http
      and v = ftp_example_com and p = "''http:''" and s = "''ftp://example.com/''"
      and ALLOWLIST = "[''example.com'']"]
  from c1 [THEN conjunct1, rule_format, OF h1]
       c2 [THEN conjunct2, THEN conjunct1, rule_format, OF h2]
       c3 [THEN conjunct2, THEN conjunct2, rule_format, OF h3]
  show ?thesis by simp
qed

theorem C2_counterexample:
  "toLowerCase (protocol ftp_example_com) \<notin> set allowed_protocols
   \<and> example_URL ''ftp://example.com/'' = Some ftp_example_com
   \<and> allowedTarget example_URL [''example.com''] ''ftp://example.com/'' = Inr ''ftp://example.com/''"
  by (simp add: allowedTarget_def isPrivateHost_def hex_colon_only_def hex_colon_chars_def
      before_colon_def example_defs eval_defs)

text \<open>
  C3. In \<^verbatim>\<open>server.js\<close> a request with an allowed method and no \<open>url\<close> parameter, or an
  empty one, is not validated: it is forwarded to \<open>DEFAULT_TARGET\<close> under its own path. The
  second server has no default upstream: it validates the empty string, and answers 400
  with the message of \<open>MissingTarget\<close>.
\<close>

theorem C3_missing_url:
  "(req_method req \<in> set allowedMethods
      \<and> (query_url req = None \<or> query_url req = Some (QStr []))
    \<longrightarrow> proxy_route_server_js parser ALLOWLIST DEFAULT_TARGET req
          = Forward DEFAULT_TARGET (path req))
   \<and> (query_url req = None \<or> query_url req = Some (QStr [])
    \<longrightarrow> proxy_route_part_000 new_URL ALLOWLIST req
          = Respond (Json 400 [(''error'', MissingTarget)]))"
proof (intro conjI impI)
  assume a: "req_method req \<in> set allowedMethods
      \<and> (query_url req = None \<or> query_url req = Some (QStr []))"
  then have n: "\<not> truthy (query_url req)" by (simp add: not_truthy_iff)
  then have "proxyMiddleware parser ALLOWLIST DEFAULT_TARGET req = Forward DEFAULT_TARGET (path req)"
    by (simp add: proxyMiddleware_def router_server_js_default pathRewrite_server_js_default)
  with a n show "proxy_route_server_js parser ALLOWLIST DEFAULT_TARGET req
          = Forward DEFAULT_TARGET (path req)"
    by (auto simp: proxy_route_server_js_def split: option.splits)
next
  assume "query_url req = None \<or> query_url req = Some (QStr [])"
  then have "url_or_empty req = Some []" by (simp add: url_or_empty_absent not_truthy_iff)
  then show "proxy_route_part_000 new_URL ALLOWLIST req
          = Respond (Json 400 [(''error'', MissingTarget)])"
    by (simp add: route_part_000_cases parseAndValidateTarget_def)
qed

theorem C3_witness:
  "proxy_route_server_js example_URL [''example.com''] ''https://example.com'' (get_request None)
     = Forward ''https://example.com'' ''/proxy''
   \<and> proxy_route_part_000 example_URL [''example.com''] (get_request (Some (QStr [])))
     = Respond (Json 400 [(''error'', MissingTarget)])"
proof -
  have h1: "req_method (get_request None) \<in> set allowedMethods
      \<and> (query_url (get_request None) = None \<or> query_url (get_request None) = Some (QStr []))"
    by (simp add: get_request_def allowedMethods_def)
  have h2: "query_url (get_request (Some (QStr []))) = None
      \<or> query_url (get_request (Some (QStr []))) = Some (QStr [])"
    by (simp add: get_request_def)
  have p: "path (get_request None) = ''/proxy''" by (simp add: get_request_def)
  note c1 = C3_missing_url [where req = "get_request None" and parser = example_URL
      and ALLOWLIST = "[''example.com'']" and DEFAULT_TARGET = "''https://example.com''"]
  note c2 = C3_missing_url [where req = "get_request (Some (QStr []))" and new_URL = example_URL
      and ALLOWLIST = "[''example.com'']"]
  from c1 [THEN conjunct1, rule_format, OF h1] p c2 [THEN conjunct2, rule_format, OF h2]
  show ?thesis by simp
qed

theorem C3_counterexample:
  "query_url (get_request None) = None
   \<and> proxy_route_part_000 example_URL [''example.com''] (get_request None)
       = Respond (Json 400 [(''error'', MissingTarget)])"
  by (simp add: get_request_def proxy_route_part_000_def url_or_empty_def
      parseAndValidateTarget_def)

text \<open>
  C5. A target with one of the four schemes and a host name that is neither private nor a
  literal is rejected with \<open>DomainNotAllowlisted\<close> when its lower-cased host name equals no
  entry and ends with no entry behind a dot; an accepted host name equals an entry or is
  some prefix, a dot and the entry. The host name \<open>evil-e.com\<close>, for \<open>e\<close> without a colon,
  is never blocked as private, so it is rejected with \<open>DomainNotAllowlisted\<close> exactly when
  it matches no entry in that sense. \<^verbatim>\<open>allowedTarget\<close> of \<^verbatim>\<open>server.js\<close> applies the same test to
  the host up to its first colon.
\<close>

theorem C5_exact_or_subdomain:
  "(target \<noteq> [] \<and> new_URL target = Some u
      \<and> toLowerCase (protocol u) \<in> set allowed_protocols
      \<and> \<not> isPrivateOrIpLiteral (hostname u)
      \<and> (\<forall>d\<in>set ALLOWLIST. toLowerCase (hostname u) \<noteq> d
             \<and> \<not> endsWith (toLowerCase (hostname u)) (''.'' @ d))
    \<longrightarrow> parseAndValidateTarget new_URL ALLOWLIST target = Inl DomainNotAllowlisted)
   \<and> (parseAndValidateTarget new_URL ALLOWLIST target = Inr u
    \<longrightarrow> (\<exists>d\<in>set ALLOWLIST. toLowerCase (hostname u) = d
             \<or> (\<exists>p. toLowerCase (hostname u) = p @ ''.'' @ d)))
   \<and> (target \<noteq> [] \<and> new_URL target = Some u
      \<and> toLowerCase (protocol u) \<in> set allowed_protocols
      \<and> hostname u = ''evil-'' @ e @ ''.com'' \<and> CHR '':'' \<notin> set e
    \<longrightarrow> (parseAndValidateTarget new_URL ALLOWLIST target = Inl DomainNotAllowlisted)
          = (\<not> (\<exists>d\<in>set ALLOWLIST. toLowerCase (hostname u) = d
                   \<or> endsWith (toLowerCase (hostname u)) (''.'' @ d))))
   \<and> (parser s = Some v \<and> host v \<noteq> [] \<and> \<not> isPrivateHost (toLowerCase (host v))
      \<and> (\<forall>d\<in>set ALLOWLIST. before_colon (toLowerCase (host v)) \<noteq> d
             \<and> \<not> endsWith (before_colon (toLowerCase (host v))) (''.'' @ d))
    \<longrightarrow> allowedTarget parser ALLOWLIST s = Inl ''Host not in allowlist'')
   \<and> (allowedTarget parser ALLOWLIST s = Inr x
    \<longrightarrow> (\<exists>v. parser s = Some v
          \<and> (\<exists>d\<in>set ALLOWLIST. before_colon (toLowerCase (host v)) = d
                \<or> (\<exists>p. before_colon (toLowerCase (host v)) = p @ ''.'' @ d))))"
proof (intro conjI impI)
  assume "target \<noteq> [] \<and> new_URL target = Some u
      \<and> toLowerCase (protocol u) \<in> set allowed_protocols
      \<and> \<not> isPrivateOrIpLiteral (hostname u)
      \<and> (\<forall>d\<in>set ALLOWLIST. toLowerCase (hostname u) \<noteq> d
             \<and> \<not> endsWith (toLowerCase (hostname u)) (''.'' @ d))"
  then show "parseAndValidateTarget new_URL ALLOWLIST target = Inl DomainNotAllowlisted"
    by (simp add: validate_parsed list_ex_domain)
next
  assume "parseAndValidateTarget new_URL ALLOWLIST target = Inr u"
  then have "\<exists>d\<in>set ALLOWLIST. toLowerCase (hostname u) = d
             \<or> endsWith (toLowerCase (hostname u)) (''.'' @ d)"
    by (simp add: validate_accept_iff list_ex_domain)
  then show "\<exists>d\<in>set ALLOWLIST. toLowerCase (hostname u) = d
             \<or> (\<exists>p. toLowerCase (hostname u) = p @ ''.'' @ d)"
    by (simp add: endsWith_iff)
next
  assume a: "target \<noteq> [] \<and> new_URL target = Some u
      \<and> toLowerCase (protocol u) \<in> set allowed_protocols
      \<and> hostname u = ''evil-'' @ e @ ''.com'' \<and> CHR '':'' \<notin> set e"
  then have "CHR '':'' \<notin> set e" by simp
  then have "\<not> isPrivateOrIpLiteral (''evil-'' @ e @ ''.com'')" by (rule evil_not_private)
  with a have np: "\<not> isPrivateOrIpLiteral (hostname u)" by simp
  from a have "target \<noteq> []" "new_URL target = Some u"
      "toLowerCase (protocol u) \<in> set allowed_protocols" by simp_all
  with np show "(parseAndValidateTarget new_URL ALLOWLIST target = Inl DomainNotAllowlisted)
          = (\<not> (\<exists>d\<in>set ALLOWLIST. toLowerCase (hostname u) = d
                   \<or> endsWith (toLowerCase (hostname u)) (''.'' @ d)))"
    by (simp add: validate_parsed list_ex_domain)
next
  assume "parser s = Some v \<and> host v \<noteq> [] \<and> \<not> isPrivateHost (toLowerCase (host v))
      \<and> (\<forall>d\<in>set ALLOWLIST. before_colon (toLowerCase (host v)) \<noteq> d
             \<and> \<not> endsWith (before_colon (toLowerCase (host v))) (''.'' @ d))"
  then show "allowedTarget parser ALLOWLIST s = Inl ''Host not in allowlist''"
    by (simp add: allowed_parsed list_ex_domain)
next
  assume "allowedTarget parser ALLOWLIST s = Inr x"
  then obtain v where v: "parser s = Some v"
      "list_ex (domain_matches (before_colon (toLowerCase (host v)))) ALLOWLIST"
    unfolding allowed_accept_iff by blast
  from v(2) have "\<exists>d\<in>set ALLOWLIST. before_colon (toLowerCase (host v)) = d
                \<or> (\<exists>p. before_colon (toLowerCase (host v)) = p @ ''.'' @ d)"
    by (simp add: list_ex_domain endsWith_iff)
  with v(1) show "\<exists>v. parser s = Some v
          \<and> (\<exists>d\<in>set ALLOWLIST. before_colon (toLowerCase (host v)) = d
                \<or> (\<exists>p. before_colon (toLowerCase (host v)) = p @ ''.'' @ d))"
    by blast
qed

theorem C5_witness:
  "parseAndValidateTarget example_URL [''example.com''] ''https://evil-example.com.com/''
     = Inl DomainNotAllowlisted
   \<and> (\<exists>d\<in>set [''example.com'']. toLowerCase (hostname api_example_com) = d
         \<or> (\<exists>p. toLowerCase (hostname api_example_com) = p @ ''.'' @ d))
   \<and> \<not> (\<exists>d\<in>set [''example.com'']. toLowerCase (hostname evil_example) = d
         \<or> endsWith (toLowerCase (hostname evil_example)) (''.'' @ d))
   \<and> allowedTarget example_URL [''example.com''] ''https://evil-example.com.com/''
     = Inl ''Host not in allowlist''
   \<and> (\<exists>v. example_URL ''wss://api.example.com:8443/feed'' = Some v
          \<and> (\<exists>d\<in>set [''example.com'']. before_colon (toLowerCase (host v)) = d
                \<or> (\<exists>p. before_colon (toLowerCase (host v)) = p @ ''.'' @ d)))"
proof -
  have h1: "''https://evil-example.com.com/'' \<noteq> []
      \<and> example_URL ''https://evil-example.com.com/'' = Some evil_example
      \<and> toLowerCase (protocol evil_example) \<in> set allowed_protocols
      \<and> \<not> isPrivateOrIpLiteral (hostname evil_example)
      \<and> (\<forall>d\<in>set [''example.com'']. toLowerCase (hostname evil_example) \<noteq> d
             \<and> \<not> endsWith (toLowerCase (hostname evil_example)) (''.'' @ d))"
    by (simp add: example_defs eval_defs)
  have h2: "parseAndValidateTarget example_URL [''example.com'']
      ''wss://api.example.com:8443/feed'' = Inr api_example_com"
    by (simp add: parseAndValidateTarget_def example_defs eval_defs)
  have h3: "''https://evil-example.com.com/'' \<noteq> []
      \<and> example_URL ''https://evil-example.com.com/'' = Some evil_example
      \<and> toLowerCase (protocol evil_example) \<in> set allowed_protocols
      \<and> hostname evil_example = ''evil-'' @ ''example.com'' @ ''.com''
      \<and> CHR '':'' \<notin> set ''example.com''"
    by (simp add: example_defs eval_defs)
  have h4: "example_URL ''https://evil-example.com.com/'' = Some evil_example
      \<and> host evil_example \<noteq> [] \<and> \<not> isPrivateHost (toLowerCase (host evil_example))
      \<and> (\<forall>d\<in>set [''example.com'']. before_colon (toLowerCase (host evil_example)) \<noteq> d
             \<and> \<not> endsWith (before_colon (toLowerCase (host evil_example))) (''.'' @ d))"
    by (simp add: example_defs eval_defs eval_host_defs)
  have h5: "allowedTarget example_URL [''example.com''] ''wss://api.example.com:8443/feed''
      = Inr ''wss://api.example.com:8443/feed''"
    by (simp add: allowedTarget_def example_defs eval_defs eval_host_defs)
  note c1 = C5_exact_or_subdomain [where new_URL = example_URL and u = evil_example
      and target = "''https://evil-example.com.com/''" and ALLOWLIST = "[''example.com'']"
      and e = "''example.com''"]
  note c2 = C5_exact_or_subdomain [where new_URL = example_URL and u = api_example_com
      and target = "''wss://api.example.com:8443/feed''" and ALLOWLIST = "[''example.com'']"]
  note c4 = C5_exact_or_subdomain [where parser = example_URL and v = evil_example
      and s = "''https://evil-example.com.com/''" and ALLOWLIST = "[''example.com'']"]
  note c5 = C5_exact_or_subdomain [where parser = example_URL
      and x = "''wss://api.example.com:8443/feed''"
      and s = "''wss://api.example.com:8443/feed''" and ALLOWLIST = "[''example.com'']"]
  note r1 = c1 [THEN conjunct1, rule_format, OF h1]
  note r2 = c2 [THEN conjunct2, THEN conjunct1, rule_format, OF h2]
  note r3 = c1 [THEN conjunct2, THEN conjunct2, THEN conjunct1, rule_format, OF h3]
  note r4 = c4 [THEN conjunct2, THEN conjunct2, THEN conjunct2, THEN conjunct1, rule_format, OF h4]
  note r5 = c5 [THEN conjunct2, THEN conjunct2, THEN conjunct2, THEN conjunct2, rule_format, OF h5]
  from r1 r3 have r3': "\<not> (\<exists>d\<in>set [''example.com'']. toLowerCase (hostname evil_example) = d
         \<or> endsWith (toLowerCase (hostname evil_example)) (''.'' @ d))"
    by simp
  from r1 r2 r3' r4 r5 show ?thesis by (intro conjI)
qed

theorem C5_counterexample:
  "example_URL ''https://evil-com.com/'' = Some evil_com
   \<and> hostname evil_com = ''evil-'' @ ''com'' @ ''.com''
   \<and> parseAndValidateTarget example_URL [''com''] ''https://evil-com.com/'' = Inr evil_com"
  by (simp add: parseAndValidateTarget_def example_defs eval_defs)

text \<open>
  C6. A target that meets every condition of the claim, in \<^verbatim>\<open>server.js\<close>. The host name
  \<open>abc\<close> is neither private nor a literal, the scheme is http, and the allowlist holds
  \<open>abc\<close>. \<^verbatim>\<open>parseAndValidateTarget\<close> accepts \<^verbatim>\<open>http://abc/\<close>, with the parsed URL as the
  verdict. \<^verbatim>\<open>allowedTarget\<close> rejects it as private: the expression that is to catch a raw
  IPv6 literal matches every host made of hex digits, with or without a colon.
\<close>

theorem C6_hex_only_host:
  "example_URL ''http://abc/'' = Some abc_host
   \<and> toLowerCase (protocol abc_host) \<in> set allowed_protocols
   \<and> \<not> isPrivateOrIpLiteral (hostname abc_host)
   \<and> toLowerCase (hostname abc_host) = ''abc''
   \<and> parseAndValidateTarget example_URL [''abc''] ''http://abc/'' = Inr abc_host
   \<and> allowedTarget example_URL [''abc''] ''http://abc/'' = Inl ''Private/invalid host''"
proof -
  have a: "example_URL ''http://abc/'' = Some abc_host" by (simp add: example_defs)
  have b: "toLowerCase (protocol abc_host) \<in> set allowed_protocols"
    by (simp add: example_defs eval_defs)
  have c: "\<not> isPrivateOrIpLiteral (hostname abc_host)"
    by (simp add: example_defs eval_defs)
  have d: "toLowerCase (hostname abc_host) = ''abc''" by (simp add: example_defs eval_defs)
  have e: "parseAndValidateTarget example_URL [''abc''] ''http://abc/'' = Inr abc_host"
    using a b c d by (simp add: validate_parsed domain_matches_def)
  have f: "allowedTarget example_URL [''abc''] ''http://abc/'' = Inl ''Private/invalid host''"
    by (simp add: allowedTarget_def example_defs eval_defs eval_host_defs)
  from a b c d e f show ?thesis by (intro conjI)
qed

text \<open>
  C7. In \<^verbatim>\<open>server.js\<close> a request whose method is not one of GET, POST, PUT, PATCH, DELETE,
  HEAD and OPTIONS is answered 405 and is not forwarded. The second server does not read
  the method: the route does the same for every method.
\<close>

theorem C7_method_not_allowed:
  "(req_method req \<notin> set allowedMethods
    \<longrightarrow> proxy_route_server_js parser ALLOWLIST DEFAULT_TARGET req
          = Respond (Send 405 ''Method Not Allowed''))
   \<and> proxy_route_part_000 new_URL ALLOWLIST (req\<lparr>req_method := m\<rparr>)
       = proxy_route_part_000 new_URL ALLOWLIST req"
proof (intro conjI impI)
  assume "req_method req \<notin> set allowedMethods"
  then show "proxy_route_server_js parser ALLOWLIST DEFAULT_TARGET req
          = Respond (Send 405 ''Method Not Allowed'')"
    by (simp add: proxy_route_server_js_def)
next
  show "proxy_route_part_000 new_URL ALLOWLIST (req\<lparr>req_method := m\<rparr>)
       = proxy_route_part_000 new_URL ALLOWLIST req"
    by (rule route_part_000_ignores_method)
qed

theorem C7_witness:
  "proxy_route_server_js example_URL [''example.com''] ''https://example.com''
      (trace_request (Some (QStr ''https://example.com/foo?x=1'')))
     = Respond (Send 405 ''Method Not Allowed'')"
proof -
  have h: "req_method (trace_request (Some (QStr ''https://example.com/foo?x=1'')))
      \<notin> set allowedMethods"
    by (simp add: trace_request_def allowedMethods_def)
  from C7_method_not_allowed [THEN conjunct1, rule_format, OF h] show ?thesis .
qed

theorem C7_counterexample:
  "req_method (trace_request (Some (QStr ''https://example.com/foo?x=1''))) \<notin> set allowedMethods
   \<and> proxy_route_part_000 example_URL [''example.com'']
        (trace_request (Some (QStr ''https://example.com/foo?x=1'')))
       = Forward ''https://example.com'' ''/foo?x=1''"
  by (simp add: trace_request_def allowedMethods_def route_part_000_cases url_or_empty_def
      parseAndValidateTarget_def example_defs eval_defs)

text \<open>
  C8. \<^verbatim>\<open>onProxyReq\<close> removes the eight hop-by-hop headers connection, keep-alive,
  proxy-authenticate, proxy-authorization, te, trailers, transfer-encoding and upgrade,
  sets \<open>x-forwarded-by\<close> to \<open>safe-proxy-site\<close>, and leaves every other header as it was. It
  does so for every request, an upgrade request included: the hook has no exception for
  \<open>upgrade\<close> and \<open>connection\<close>. The hooks of the two servers compute the same headers.
\<close>

theorem C8_request_headers:
  "(\<forall>h\<in>set hop_by_hop. onProxyReq_part_000 hs h = None)
   \<and> onProxyReq_part_000 hs ''x-forwarded-by'' = Some ''safe-proxy-site''
   \<and> (\<forall>h. h \<notin> set hop_by_hop \<and> h \<noteq> ''x-forwarded-by'' \<longrightarrow> onProxyReq_part_000 hs h = hs h)
   \<and> onProxyReq_server_js hs = onProxyReq_part_000 hs"
proof (intro conjI ballI allI impI)
  fix h assume "h \<in> set hop_by_hop"
  then show "onProxyReq_part_000 hs h = None" by (simp add: onProxyReq_part_000_at)
next
  show "onProxyReq_part_000 hs ''x-forwarded-by'' = Some ''safe-proxy-site''"
    using forwarded_by_not_hop by (simp add: onProxyReq_part_000_at)
next
  fix h assume "h \<notin> set hop_by_hop \<and> h \<noteq> ''x-forwarded-by''"
  then show "onProxyReq_part_000 hs h = hs h" by (simp add: onProxyReq_part_000_at)
next
  show "onProxyReq_server_js hs = onProxyReq_part_000 hs" by (rule onProxyReq_same)
qed

theorem C8_witness:
  "onProxyReq_part_000 upgrade_headers ''transfer-encoding'' = None
   \<and> onProxyReq_part_000 upgrade_headers ''sec-websocket-version'' = Some ''13''"
proof -
  have h1: "''transfer-encoding'' \<in> set hop_by_hop" by (simp add: hop_by_hop_def)
  have h2: "''sec-websocket-version'' \<notin> set hop_by_hop
      \<and> ''sec-websocket-version'' \<noteq> ''x-forwarded-by''"
    by (simp add: hop_by_hop_def)
  have v: "upgrade_headers ''sec-websocket-version'' = Some ''13''"
    by (simp add: upgrade_headers_def)
  note c = C8_request_headers [where hs = upgrade_headers]
  from c [THEN conjunct1, rule_format, OF h1]
       c [THEN conjunct2, THEN conjunct2, THEN conjunct1, rule_format, OF h2] v
  show ?thesis by simp
qed

theorem C8_counterexample:
  "upgrade_headers ''upgrade'' = Some ''websocket''
   \<and> upgrade_headers ''connection'' = Some ''Upgrade''
   \<and> onProxyReq_part_000 upgrade_headers ''upgrade'' = None
   \<and> onProxyReq_part_000 upgrade_headers ''connection'' = None
   \<and> onProxyReq_server_js upgrade_headers ''upgrade'' = None
   \<and> onProxyReq_server_js upgrade_headers ''connection'' = None"
  by (simp add: upgrade_headers_def onProxyReq_part_000_at onProxyReq_server_js_at hop_by_hop_def)

text \<open>
  C9. In \<^verbatim>\<open>server.js\<close> the response hook removes \<open>server\<close> and \<open>x-powered-by\<close> from the headers
  of the upstream response and leaves every other header as it was. The second server
  configures no response hook, so the headers are relayed as they came. In both servers
  the request sent upstream carries \<open>x-forwarded-by\<close>.
\<close>

theorem C9_response_headers:
  "relayed_headers response_hook_server_js hs ''server'' = None
   \<and> relayed_headers response_hook_server_js hs ''x-powered-by'' = None
   \<and> (\<forall>h. h \<noteq> ''server'' \<and> h \<noteq> ''x-powered-by''
          \<longrightarrow> relayed_headers response_hook_server_js hs h = hs h)
   \<and> relayed_headers response_hook_part_000 hs = hs
   \<and> onProxyReq_server_js rq ''x-forwarded-by'' = Some ''safe-proxy-site''
   \<and> onProxyReq_part_000 rq ''x-forwarded-by'' = Some ''safe-proxy-site''"
proof (intro conjI allI impI)
  show "relayed_headers response_hook_server_js hs ''server'' = None"
    and "relayed_headers response_hook_server_js hs ''x-powered-by'' = None"
    by (simp_all add: relayed_headers_def response_hook_server_js_def onProxyRes_server_js_at)
next
  fix h assume "h \<noteq> ''server'' \<and> h \<noteq> ''x-powered-by''"
  then show "relayed_headers response_hook_server_js hs h = hs h"
    by (simp add: relayed_headers_def response_hook_server_js_def onProxyRes_server_js_at)
next
  show "relayed_headers response_hook_part_000 hs = hs"
    by (simp add: relayed_headers_def response_hook_part_000_def)
next
  show "onProxyReq_server_js rq ''x-forwarded-by'' = Some ''safe-proxy-site''"
    and "onProxyReq_part_000 rq ''x-forwarded-by'' = Some ''safe-proxy-site''"
    using forwarded_by_not_hop
    by (simp_all add: onProxyReq_part_000_at onProxyReq_server_js_at)
qed

theorem C9_witness:
  "relayed_headers response_hook_server_js upstream_headers ''content-type'' = Some ''text/html''"
proof -
  have h: "''content-type'' \<noteq> ''server'' \<and> ''content-type'' \<noteq> ''x-powered-by''" by simp
  have v: "upstream_headers ''content-type'' = Some ''text/html''"
    by (simp add: upstream_headers_def)
  from C9_response_headers [where hs = upstream_headers, THEN conjunct2, THEN conjunct2,
      THEN conjunct1, rule_format, OF h] v
  show ?thesis by simp
qed

theorem C9_counterexample:
  "upstream_headers ''server'' = Some ''nginx''
   \<and> relayed_headers response_hook_part_000 upstream_headers ''server'' = Some ''nginx''
   \<and> relayed_headers response_hook_part_000 upstream_headers ''x-powered-by'' = Some ''PHP''"
  by (simp add: upstream_headers_def relayed_headers_def response_hook_part_000_def)

text \<open>
  C10. The route validates the target before it hands the request to the proxy
  middleware, and the router validates the same string against the same allowlist. So
  whenever the first validation accepts, the router returns a target, and the route never
  ends in the error the router throws on a rejection. This holds in both servers.
\<close>

theorem C10_router_never_rejects:
  "(url_or_empty req = Some s \<and> parseAndValidateTarget new_URL ALLOWLIST s = Inr t
    \<longrightarrow> router_part_000 new_URL ALLOWLIST req = Inr (origin t))
   \<and> proxy_route_part_000 new_URL ALLOWLIST req \<noteq> RouterThrew e
   \<and> (query_url req = Some v \<and> truthy (Some v) \<and> to_String v = Some s
      \<and> allowedTarget parser ALLOWLIST s = Inr x
    \<longrightarrow> router_server_js parser ALLOWLIST DEFAULT_TARGET req = Inr s)
   \<and> proxy_route_server_js parser ALLOWLIST DEFAULT_TARGET req \<noteq> RouterThrew e"
proof (intro conjI impI)
  assume "url_or_empty req = Some s \<and> parseAndValidateTarget new_URL ALLOWLIST s = Inr t"
  then show "router_part_000 new_URL ALLOWLIST req = Inr (origin t)"
    by (simp add: router_part_000_accept)
next
  show "proxy_route_part_000 new_URL ALLOWLIST req \<noteq> RouterThrew e"
    by (rule route_part_000_never_throws)
next
  assume "query_url req = Some v \<and> truthy (Some v) \<and> to_String v = Some s
      \<and> allowedTarget parser ALLOWLIST s = Inr x"
  then show "router_server_js parser ALLOWLIST DEFAULT_TARGET req = Inr s"
    by (simp add: router_server_js_accept)
next
  show "proxy_route_server_js parser ALLOWLIST DEFAULT_TARGET req \<noteq> RouterThrew e"
    by (rule route_server_js_never_throws)
qed

theorem C10_witness:
  "router_part_000 example_URL [''example.com'']
      (get_request (Some (QStr ''https://example.com/foo?x=1''))) = Inr ''https://example.com''
   \<and> router_server_js example_URL [''example.com''] ''https://example.org''
      (get_request (Some (QStr ''https://example.com/foo?x=1'')))
     = Inr ''https://example.com/foo?x=1''"
proof -
  let ?req = "get_request (Some (QStr ''https://example.com/foo?x=1''))"
  have h1: "url_or_empty ?req = Some ''https://example.com/foo?x=1''
      \<and> parseAndValidateTarget example_URL [''example.com''] ''https://example.com/foo?x=1''
          = Inr example_com_foo"
    by (simp add: get_request_def url_or_empty_def parseAndValidateTarget_def example_defs
        eval_defs)
  have h2: "query_url ?req = Some (QStr ''https://example.com/foo?x=1'')
      \<and> truthy (Some (QStr ''https://example.com/foo?x=1''))
      \<and> to_String (QStr ''https://example.com/foo?x=1'') = Some ''https://example.com/foo?x=1''
      \<and> allowedTarget example_URL [''example.com''] ''https://example.com/foo?x=1''
          = Inr ''https://example.com/foo?x=1''"
    by (simp add: get_request_def allowedTarget_def example_defs eval_defs eval_host_defs)
  have o: "origin example_com_foo = ''https://example.com''" by (simp add: example_defs)
  note c1 = C10_router_never_rejects [where new_URL = example_URL and req = ?req
      and s = "''https://example.com/foo?x=1''"
      and t = example_com_foo and ALLOWLIST = "[''example.com'']"]
  note c2 = C10_router_never_rejects [where parser = example_URL and req = ?req
      and v = "QStr ''https://example.com/foo?x=1''" and x = "''https://example.com/foo?x=1''"
      and s = "''https://example.com/foo?x=1''"
      and ALLOWLIST = "[''example.com'']" and DEFAULT_TARGET = "''https://example.org''"]
  from c1 [THEN conjunct1, rule_format, OF h1] o
       c2 [THEN conjunct2, THEN conjunct2, THEN conjunct1, rule_format, OF h2]
  show ?thesis by simp
qed

end
